theory Spec2Isabelle
  imports Main "HOL-Library.AList" "HOL-Library.Sublist"
begin

section \<open>The chat server\<close>

text \<open>
  The server is the part of \<open>src/client/src/App.jsx\<close> headed \<open>server/index.js\<close>. It
  keeps three tables in process memory: \<open>users\<close> (socket id to session), \<open>messages\<close>
  (the message store, in arrival order) and \<open>rooms\<close> (the room directory). Each
  socket.io handler is translated into a function that takes the tables and the
  handler's arguments and returns the new tables, the events it emits and the value it
  hands to the acknowledgment callback.
\<close>

subsection \<open>Data\<close>

type_synonym sid = string

text \<open>The value stored under \<open>users[socket.id]\<close>: \<open>{username, room, lastSeen}\<close>.\<close>

record session =
  username :: string
  room :: string
  lastSeen :: nat

text \<open>An element of \<open>msg.reactions\<close>: \<open>{user, reaction}\<close>.\<close>

record reaction_entry =
  user :: string
  reaction :: string

text \<open>
  A message record. The fields \<open>id\<close>, \<open>text\<close>, \<open>file\<close>, \<open>room\<close> and \<open>to\<close> of the source
  carry the prefix \<open>m\<close> here. A time stamp is the number of milliseconds that the ISO
  string of \<open>new Date().toISOString()\<close> denotes; \<open>null\<close> is \<open>None\<close>.
\<close>

record message =
  mid :: string
  mtext :: string
  mfile :: "string option"
  sender :: string
  timestamp :: nat
  mroom :: string
  isPrivate :: bool
  mto :: "string option"
  reactions :: "reaction_entry list"
  readBy :: "string list"
  deliveredTo :: "string list"

text \<open>
  The tables, together with the two pieces of socket.io state the handlers act on:
  the connected sockets, and the adapter's room membership (pairs of a socket id and
  the name of a room it has joined). JavaScript objects list their keys in the order
  of creation, except for array indices, which come first; a socket id is a token of
  20 characters and never an array index, so \<open>users\<close> is an association list in
  insertion order.
\<close>

record state =
  users :: "(sid \<times> session) list"
  messages :: "message list"
  rooms :: "string list"
  sockets :: "sid list"
  adapter :: "(sid \<times> string) list"

definition init :: state where
  "init = \<lparr>users = [], messages = [], rooms = [''global''], sockets = [], adapter = []\<rparr>"

subsection \<open>Outgoing events and acknowledgments\<close>

text \<open>
  \<open>To r\<close> is \<open>io.to(r).emit\<close>, \<open>Self c\<close> is \<open>socket.emit\<close> on the socket \<open>c\<close> and
  \<open>ToExcept r c\<close> is \<open>socket.to(r).emit\<close> on the socket \<open>c\<close>.
\<close>

datatype target = To string | Self sid | ToExcept string sid

datatype payload =
    OnlineUsers "session list"
  | Notification string
  | Msg message
  | TypingInfo string bool bool

datatype emit = Emit target string payload

datatype ack =
    AckError string
  | AckStatus string
  | AckDelivered string
  | AckCounts "(string \<times> nat) list"

datatype crash = TypeError

type_synonym outcome = "state \<times> emit list \<times> ack option"

text \<open>\<open>cb && cb(x)\<close>: the value reaches the client only when a callback was supplied.\<close>

definition callback :: "bool \<Rightarrow> ack \<Rightarrow> ack option" where
  "callback cb x = (if cb then Some x else None)"

text \<open>Truthiness of an optional string: \<open>undefined\<close>, \<open>null\<close> and \<open>""\<close> are falsy.\<close>

fun truthy :: "string option \<Rightarrow> bool" where
  "truthy None = False"
| "truthy (Some v) = (v \<noteq> [])"

text \<open>\<open>x || null\<close> on an optional string.\<close>

definition or_null :: "string option \<Rightarrow> string option" where
  "or_null x = (if truthy x then x else None)"

text \<open>
  \<open>x || ""\<close> on an optional string. Where \<open>x\<close> is known to be truthy this is \<open>x\<close> itself,
  and the handlers below read a checked user name or recipient through it.
\<close>

definition or_empty :: "string option \<Rightarrow> string" where
  "or_empty x = (case x of None \<Rightarrow> [] | Some v \<Rightarrow> v)"

text \<open>The default of the parameter \<open>room = "global"\<close>, which replaces \<open>undefined\<close>.\<close>

definition default_room :: "string option \<Rightarrow> string" where
  "default_room x = (case x of None \<Rightarrow> ''global'' | Some v \<Rightarrow> v)"

subsection \<open>The socket.io adapter\<close>

definition socket_join :: "sid \<Rightarrow> string \<Rightarrow> (sid \<times> string) list \<Rightarrow> (sid \<times> string) list" where
  "socket_join c r a = (if (c, r) \<in> set a then a else a @ [(c, r)])"

definition socket_leave :: "sid \<Rightarrow> string \<Rightarrow> (sid \<times> string) list \<Rightarrow> (sid \<times> string) list" where
  "socket_leave c r a = filter (\<lambda>p. p \<noteq> (c, r)) a"

text \<open>
  The sockets an emit reaches. A room holds the connected sockets that joined it; every
  socket joins the room named by its own id when it connects, which is how
  \<open>io.to(sid)\<close> addresses one socket.
\<close>

fun receivers :: "state \<Rightarrow> target \<Rightarrow> sid list" where
  "receivers s (To r) = filter (\<lambda>c. (c, r) \<in> set (adapter s)) (sockets s)"
| "receivers s (Self c) = [c]"
| "receivers s (ToExcept r c) = filter (\<lambda>c'. (c', r) \<in> set (adapter s) \<and> c' \<noteq> c) (sockets s)"

fun deliveries :: "state \<Rightarrow> emit \<Rightarrow> (sid \<times> string \<times> payload) list" where
  "deliveries s (Emit t ev p) = map (\<lambda>c. (c, ev, p)) (receivers s t)"

text \<open>
  Every handler does its \<open>socket.join\<close> and \<open>socket.leave\<close> before its first emit, so
  the emits of a handler are resolved in the state the handler returns.
\<close>

definition delivered :: "state \<Rightarrow> emit list \<Rightarrow> (sid \<times> string \<times> payload) list" where
  "delivered s out = concat (map (deliveries s) out)"

subsection \<open>Presence\<close>

text \<open>\<open>Object.values(users).filter(u => u.room === room)\<close>\<close>

definition onlineUsersInRoom :: "state \<Rightarrow> string \<Rightarrow> session list" where
  "onlineUsersInRoom s r = filter (\<lambda>u. room u = r) (map snd (users s))"

text \<open>\<open>Object.entries(users).filter(([sid,u]) => u.username === name)\<close>\<close>

definition sockets_of :: "state \<Rightarrow> string \<Rightarrow> sid list" where
  "sockets_of s name = map fst (filter (\<lambda>(c, u). username u = name) (users s))"

subsection \<open>Handlers\<close>

definition join :: "state \<Rightarrow> sid \<Rightarrow> string option \<Rightarrow> string option \<Rightarrow> nat \<Rightarrow> bool \<Rightarrow> outcome" where
  "join s c name room_arg now cb =
     (if \<not> truthy name then (s, [], callback cb (AckError ''Username required''))
      else
        let n = or_empty name;
            r = default_room room_arg;
            s1 = s\<lparr>users := AList.update c \<lparr>username = n, room = r, lastSeen = now\<rparr> (users s)\<rparr>;
            s2 = (if r \<in> set (rooms s1) then s1 else s1\<lparr>rooms := rooms s1 @ [r]\<rparr>);
            s3 = s2\<lparr>adapter := socket_join c r (adapter s2)\<rparr>
        in (s3,
            [Emit (To r) ''onlineUsers'' (OnlineUsers (onlineUsersInRoom s3 r)),
             Emit (To r) ''notification'' (Notification (n @ '' joined '' @ r))],
            callback cb (AckStatus ''ok'')))"

text \<open>
  \<open>u\<close> is the session object itself, so after \<open>u.room = room\<close> the expression \<open>u.room\<close>
  in the first emit is already the new room.
\<close>

definition joinRoom :: "state \<Rightarrow> sid \<Rightarrow> string \<Rightarrow> bool \<Rightarrow> outcome" where
  "joinRoom s c r cb =
     (case map_of (users s) c of
        None \<Rightarrow> (s, [], callback cb (AckError ''Not joined''))
      | Some u0 \<Rightarrow>
          let a1 = socket_leave c (room u0) (adapter s);
              u = u0\<lparr>room := r\<rparr>;
              s1 = s\<lparr>users := AList.update c u (users s), adapter := socket_join c r a1\<rparr>
          in (s1,
              [Emit (To (room u)) ''onlineUsers'' (OnlineUsers (onlineUsersInRoom s1 (room u))),
               Emit (To r) ''onlineUsers'' (OnlineUsers (onlineUsersInRoom s1 r)),
               Emit (To r) ''notification'' (Notification (username u @ '' joined '' @ r))],
              callback cb (AckStatus ''ok'')))"

text \<open>The payload of \<open>sendMessage\<close>: \<open>{text, file, isPrivate, to}\<close>, each possibly absent.\<close>

record send_data =
  d_text :: "string option"
  d_file :: "string option"
  d_isPrivate :: bool
  d_to :: "string option"

text \<open>
  \<open>uuid\<close> is the value of \<open>uuidv4()\<close> and \<open>now\<close> the clock reading of this call.
\<close>

definition sendMessage :: "state \<Rightarrow> sid \<Rightarrow> send_data \<Rightarrow> string \<Rightarrow> nat \<Rightarrow> bool \<Rightarrow> outcome" where
  "sendMessage s c data uuid now cb =
     (case map_of (users s) c of
        None \<Rightarrow> (s, [], callback cb (AckError ''Not joined''))
      | Some u \<Rightarrow>
          let msg = \<lparr>mid = uuid, mtext = or_empty (d_text data), mfile = or_null (d_file data),
                     sender = username u, timestamp = now, mroom = room u,
                     isPrivate = d_isPrivate data, mto = or_null (d_to data),
                     reactions = [], readBy = [], deliveredTo = []\<rparr>;
              s1 = s\<lparr>messages := messages s @ [msg]\<rparr>
          in (s1,
              (if isPrivate msg \<and> truthy (mto msg)
               then map (\<lambda>c'. Emit (To c') ''privateMessage'' (Msg msg))
                        (sockets_of s1 (or_empty (mto msg)))
                    @ [Emit (Self c) ''privateMessage'' (Msg msg)]
               else [Emit (To (mroom msg)) ''receiveMessage'' (Msg msg)]),
              callback cb (AckDelivered (mid msg))))"

record typing_data =
  t_isTyping :: bool
  t_isPrivate :: bool
  t_to :: "string option"

definition typing :: "state \<Rightarrow> sid \<Rightarrow> typing_data \<Rightarrow> outcome" where
  "typing s c data =
     (case map_of (users s) c of
        None \<Rightarrow> (s, [], None)
      | Some u \<Rightarrow>
          if t_isPrivate data \<and> truthy (t_to data)
          then (s, map (\<lambda>c'. Emit (To c') ''typing'' (TypingInfo (username u) (t_isTyping data) True))
                       (sockets_of s (or_empty (t_to data))), None)
          else (s, [Emit (ToExcept (room u) c) ''typing''
                      (TypingInfo (username u) (t_isTyping data) False)], None))"

text \<open>
  \<open>messages.find\<close> returns the first message with the id, and the handlers mutate that
  object in place.
\<close>

fun update_first :: "('a \<Rightarrow> bool) \<Rightarrow> ('a \<Rightarrow> 'a) \<Rightarrow> 'a list \<Rightarrow> 'a list" where
  "update_first P f [] = []"
| "update_first P f (x # xs) = (if P x then f x # xs else x # update_first P f xs)"

text \<open>The targets of a reaction or read update for the message \<open>msg\<close>.\<close>

definition update_emits :: "state \<Rightarrow> string \<Rightarrow> message \<Rightarrow> emit list" where
  "update_emits s ev msg =
     (if isPrivate msg \<and> truthy (mto msg)
      then map (\<lambda>c'. Emit (To c') ev (Msg msg))
               (map fst (filter (\<lambda>(c', u). Some (username u) = mto msg \<or> username u = sender msg)
                                (users s)))
      else [Emit (To (mroom msg)) ev (Msg msg)])"

text \<open>
  \<open>users[socket.id].username\<close> throws a \<open>TypeError\<close> when the socket has no session;
  nothing catches it.
\<close>

definition react :: "state \<Rightarrow> sid \<Rightarrow> string \<Rightarrow> string \<Rightarrow> bool \<Rightarrow> crash + outcome" where
  "react s c messageId r cb =
     (case find (\<lambda>m. mid m = messageId) (messages s) of
        None \<Rightarrow> Inr (s, [], callback cb (AckError ''Message not found''))
      | Some msg0 \<Rightarrow>
          (case map_of (users s) c of
             None \<Rightarrow> Inl TypeError
           | Some u \<Rightarrow>
               let add = (\<lambda>m. m\<lparr>reactions := reactions m @ [\<lparr>user = username u, reaction = r\<rparr>]\<rparr>);
                   s1 = s\<lparr>messages := update_first (\<lambda>m. mid m = messageId) add (messages s)\<rparr>
               in Inr (s1, update_emits s1 ''reactionUpdate'' (add msg0),
                       callback cb (AckStatus ''ok''))))"

definition readMessage :: "state \<Rightarrow> sid \<Rightarrow> string \<Rightarrow> bool \<Rightarrow> outcome" where
  "readMessage s c messageId cb =
     (case find (\<lambda>m. mid m = messageId) (messages s) of
        None \<Rightarrow> (s, [], callback cb (AckError ''Message not found''))
      | Some msg0 \<Rightarrow>
          let name = map_option username (map_of (users s) c);
              push = truthy name \<and> or_empty name \<notin> set (readBy msg0);
              add = (\<lambda>m. m\<lparr>readBy := readBy m @ [or_empty name]\<rparr>);
              s1 = (if push
                    then s\<lparr>messages := update_first (\<lambda>m. mid m = messageId) add (messages s)\<rparr>
                    else s);
              msg = (if push then add msg0 else msg0)
          in (s1, update_emits s1 ''readUpdate'' msg, callback cb (AckStatus ''ok'')))"

text \<open>\<open>counts[k] = (counts[k] || 0) + 1\<close>\<close>

definition bump :: "string \<Rightarrow> (string \<times> nat) list \<Rightarrow> (string \<times> nat) list" where
  "bump k counts = AList.update k (case map_of counts k of None \<Rightarrow> 1 | Some n \<Rightarrow> n + 1) counts"

definition count_message :: "session \<Rightarrow> message \<Rightarrow> (string \<times> nat) list \<Rightarrow> (string \<times> nat) list" where
  "count_message u m counts =
     (if isPrivate m
      then (if mto m = Some (username u) \<and> username u \<notin> set (readBy m)
            then bump (sender m) counts else counts)
      else (if mroom m = room u \<and> username u \<notin> set (readBy m)
            then bump (mroom m) counts else counts))"

text \<open>
  The keys of the \<open>counts\<close> object are user and room names, so some may be array
  indices: the decimal strings, without leading zero, of the numbers from 0 to
  \<open>2^32 - 2\<close>. JavaScript lists those keys first, in ascending order, and the other
  keys after them in the order of their creation; the answer is sent in that order.
\<close>

definition is_digit :: "char \<Rightarrow> bool" where
  "is_digit ch = (48 \<le> (of_char ch :: int) \<and> (of_char ch :: int) \<le> 57)"

definition decimal :: "string \<Rightarrow> int" where
  "decimal k = foldl (\<lambda>n ch. 10 * n + (of_char ch - 48)) 0 k"

definition array_index :: "string \<Rightarrow> bool" where
  "array_index k =
     (k \<noteq> [] \<and> list_all is_digit k \<and> (k = ''0'' \<or> hd k \<noteq> CHR ''0'') \<and> decimal k \<le> 4294967294)"

definition own_keys_order :: "(string \<times> 'v) list \<Rightarrow> (string \<times> 'v) list" where
  "own_keys_order al =
     sort_key (\<lambda>p. decimal (fst p)) (filter (\<lambda>p. array_index (fst p)) al)
     @ filter (\<lambda>p. \<not> array_index (fst p)) al"

definition getUnreadCounts :: "state \<Rightarrow> sid \<Rightarrow> bool \<Rightarrow> outcome" where
  "getUnreadCounts s c cb =
     (case map_of (users s) c of
        None \<Rightarrow> (s, [], callback cb (AckError ''Not joined''))
      | Some u \<Rightarrow>
          (s, [],
           callback cb (AckCounts (own_keys_order (fold (count_message u) (messages s) [])))))"

definition disconnect :: "state \<Rightarrow> sid \<Rightarrow> outcome" where
  "disconnect s c =
     (case map_of (users s) c of
        None \<Rightarrow> (s, [], None)
      | Some u \<Rightarrow>
          let leftRoom = room u;
              s1 = s\<lparr>users := AList.delete c (users s)\<rparr>
          in (s1,
              [Emit (To leftRoom) ''onlineUsers'' (OnlineUsers (onlineUsersInRoom s1 leftRoom)),
               Emit (To leftRoom) ''notification'' (Notification (username u @ '' left '' @ leftRoom))],
              None))"

subsection \<open>The HTTP endpoints\<close>

text \<open>\<open>POST /rooms\<close>: the answer is the error text or the room list.\<close>

definition post_rooms :: "state \<Rightarrow> string option \<Rightarrow> state \<times> (string + string list)" where
  "post_rooms s name =
     (if \<not> truthy name then (s, Inl ''room name required'')
      else
        let s1 = (if or_empty name \<in> set (rooms s) then s
                  else s\<lparr>rooms := rooms s @ [or_empty name]\<rparr>)
        in (s1, Inr (rooms s1)))"

text \<open>
  The query string of \<open>GET /messages\<close>. \<open>q_page\<close> and \<open>q_limit\<close> are the results of
  \<open>parseInt\<close> after the defaults 1 and 20 have been filled in. \<open>parseInt\<close> yields a
  double: \<open>Some n\<close> is a finite result, and \<open>None\<close> stands for \<open>NaN\<close> and for
  \<open>Infinity\<close>, the result for a digit string beyond the range of a double. A result of
  \<open>-Infinity\<close> is below 1 and is read as any \<open>Some n\<close> with \<open>n < 1\<close>. \<open>q_private\<close> holds
  the parameter \<open>private\<close> after its default \<open>"false"\<close>.
\<close>

record query =
  q_room :: "string option"
  q_page :: "int option"
  q_limit :: "int option"
  q_private :: string
  q_peer :: "string option"
  q_requester :: "string option"

text \<open>
  \<open>m.to === req.query.requester\<close> compares a string or \<open>null\<close> with a string or
  \<open>undefined\<close>: it holds only for two equal strings.
\<close>

definition to_is :: "message \<Rightarrow> string option \<Rightarrow> bool" where
  "to_is m x = (case (mto m, x) of (Some a, Some b) \<Rightarrow> a = b | _ \<Rightarrow> False)"

definition matches :: "query \<Rightarrow> message \<Rightarrow> bool" where
  "matches q m =
     (if q_private q = ''true''
      then (if \<not> truthy (q_peer q) then False
            else isPrivate m \<and>
                 ((Some (sender m) = q_peer q \<and> to_is m (q_requester q)) \<or>
                  (Some (sender m) = q_requester q \<and> to_is m (q_peer q)) \<or>
                  (Some (sender m) = q_peer q \<and> to_is m (q_requester q))))
      else \<not> isPrivate m \<and> mroom m = default_room (q_room q))"

text \<open>\<open>Array.prototype.slice(start, end)\<close>: a negative index counts from the end.\<close>

definition js_slice :: "'a list \<Rightarrow> int \<Rightarrow> int \<Rightarrow> 'a list" where
  "js_slice xs start end =
     (let len = int (length xs);
          k = (if start < 0 then max (len + start) 0 else min start len);
          fin = (if end < 0 then max (len + end) 0 else min end len)
      in take (nat (fin - k)) (drop (nat k) xs))"

text \<open>
  The answer \<open>{messages, total}\<close>. The sort of JavaScript arrays is stable, as
  \<open>sort_key\<close> is. With \<open>NaN\<close> for the page or the limit both slice bounds are \<open>NaN\<close>,
  which \<open>slice\<close> reads as 0. With \<open>Infinity\<close> for the page or the limit the end bound
  is \<open>-Infinity\<close>, or \<open>NaN\<close> from \<open>0 * Infinity\<close> on page 1; \<open>slice\<close> reads both as 0.
  In all these cases the page is empty.
\<close>

definition get_messages :: "state \<Rightarrow> query \<Rightarrow> message list \<times> nat" where
  "get_messages s q =
     (let filtered = sort_key timestamp (filter (matches q) (messages s));
          len = int (length filtered)
      in case (q_page q, q_limit q) of
           (Some page, Some limit) \<Rightarrow>
             let pageNum = max 1 page;
                 lim = max 1 limit;
                 start = max 0 (len - pageNum * lim);
                 end = len - (pageNum - 1) * lim
             in (js_slice filtered start end, length filtered)
         | _ \<Rightarrow> ([], length filtered))"

subsection \<open>Events and runs\<close>

datatype event =
    Connection sid
  | Join sid "string option" "string option" nat bool
  | JoinRoom sid string bool
  | SendMessage sid send_data string nat bool
  | Typing sid typing_data
  | React sid string string bool
  | ReadMessage sid string bool
  | GetUnreadCounts sid bool
  | Disconnect sid
  | PostRooms "string option"

text \<open>The socket an event arrives on.\<close>

fun socket_of :: "event \<Rightarrow> sid option" where
  "socket_of (Connection c) = None"
| "socket_of (Join c _ _ _ _) = Some c"
| "socket_of (JoinRoom c _ _) = Some c"
| "socket_of (SendMessage c _ _ _ _) = Some c"
| "socket_of (Typing c _) = Some c"
| "socket_of (React c _ _ _) = Some c"
| "socket_of (ReadMessage c _ _) = Some c"
| "socket_of (GetUnreadCounts c _) = Some c"
| "socket_of (Disconnect c) = Some c"
| "socket_of (PostRooms _) = None"

text \<open>
  The handler of an event. On a disconnect socket.io first takes the socket out of
  the server and out of every room, then fires the handler.
\<close>

fun handle :: "state \<Rightarrow> event \<Rightarrow> crash + outcome" where
  "handle s (Connection c) =
     Inr (if c \<in> set (sockets s) then s
          else s\<lparr>sockets := sockets s @ [c], adapter := adapter s @ [(c, c)]\<rparr>, [], None)"
| "handle s (Join c name r now cb) = Inr (join s c name r now cb)"
| "handle s (JoinRoom c r cb) = Inr (joinRoom s c r cb)"
| "handle s (SendMessage c data uuid now cb) = Inr (sendMessage s c data uuid now cb)"
| "handle s (Typing c data) = Inr (typing s c data)"
| "handle s (React c messageId r cb) = react s c messageId r cb"
| "handle s (ReadMessage c messageId cb) = Inr (readMessage s c messageId cb)"
| "handle s (GetUnreadCounts c cb) = Inr (getUnreadCounts s c cb)"
| "handle s (Disconnect c) =
     Inr (disconnect (s\<lparr>sockets := removeAll c (sockets s),
                        adapter := filter (\<lambda>p. fst p \<noteq> c) (adapter s)\<rparr>) c)"
| "handle s (PostRooms name) = Inr (fst (post_rooms s name), [], None)"

text \<open>
  Handlers exist only on connected sockets: an event on a socket that never connected,
  or that has disconnected, does not arrive.
\<close>

definition step :: "state \<Rightarrow> event \<Rightarrow> crash + outcome" where
  "step s e =
     (case socket_of e of
        None \<Rightarrow> handle s e
      | Some c \<Rightarrow> if c \<in> set (sockets s) then handle s e else Inr (s, [], None))"

text \<open>A run stops at the first uncaught exception, which ends the server process.\<close>

fun run :: "state \<Rightarrow> event list \<Rightarrow> crash + state" where
  "run s [] = Inr s"
| "run s (e # es) = (case step s e of Inl x \<Rightarrow> Inl x | Inr (s', out) \<Rightarrow> run s' es)"


text \<open>The events that change who is connected and who is in which room.\<close>

fun presence_event :: "event \<Rightarrow> bool" where
  "presence_event (Connection c) = True"
| "presence_event (Join c name r now cb) = True"
| "presence_event (JoinRoom c r cb) = True"
| "presence_event (Disconnect c) = True"
| "presence_event _ = False"

fun is_joinRoom :: "event \<Rightarrow> bool" where
  "is_joinRoom (JoinRoom c r cb) = True"
| "is_joinRoom _ = False"

subsection \<open>What the specification says about a history\<close>

text \<open>
  The specification speaks of the sessions whose last successful \<open>join\<close> or \<open>joinRoom\<close>
  targeted a room and which have not since disconnected. The two functions below read
  that off a history of events, newest event first, without looking at the tables.
  A connection is open when it has arrived and has not been closed since.
\<close>

fun spec_connected :: "event list \<Rightarrow> sid \<Rightarrow> bool" where
  "spec_connected [] c = False"
| "spec_connected (Connection c' # older) c = (c' = c \<or> spec_connected older c)"
| "spec_connected (Disconnect c' # older) c = (c' \<noteq> c \<and> spec_connected older c)"
| "spec_connected (_ # older) c = spec_connected older c"

text \<open>
  The user name and room of the connection's session, if it has one. A \<open>join\<close> succeeds
  on an open connection when its payload carries a non-empty user name; it targets the
  room its payload names, and the room global when the payload names none. A
  \<open>joinRoom\<close> succeeds on a connection that has a session and targets the room its
  payload names. A disconnect ends the session. The payloads are read directly: no
  function of the server takes part.
\<close>

fun spec_session :: "event list \<Rightarrow> sid \<Rightarrow> (string \<times> string) option" where
  "spec_session [] c = None"
| "spec_session (Disconnect c' # older) c = (if c' = c then None else spec_session older c)"
| "spec_session (Join c' None r now cb # older) c = spec_session older c"
| "spec_session (Join c' (Some n) None now cb # older) c =
     (if c' = c \<and> spec_connected older c \<and> n \<noteq> [] then Some (n, ''global'')
      else spec_session older c)"
| "spec_session (Join c' (Some n) (Some v) now cb # older) c =
     (if c' = c \<and> spec_connected older c \<and> n \<noteq> [] then Some (n, v)
      else spec_session older c)"
| "spec_session (JoinRoom c' r cb # older) c =
     (if c' = c
      then (case spec_session older c of None \<Rightarrow> None | Some (n, r0) \<Rightarrow> Some (n, r))
      else spec_session older c)"
| "spec_session (_ # older) c = spec_session older c"

definition spec_in_room :: "event list \<Rightarrow> string \<Rightarrow> sid \<Rightarrow> bool" where
  "spec_in_room h r c = (map_option snd (spec_session h c) = Some r)"

subsection \<open>Invariants\<close>

definition session_of :: "state \<Rightarrow> sid \<Rightarrow> (string \<times> string) option" where
  "session_of s c = map_option (\<lambda>u. (username u, room u)) (map_of (users s) c)"

text \<open>Every session belongs to a connected socket that is in the session's room.\<close>

definition sessions_placed :: "state \<Rightarrow> bool" where
  "sessions_placed s =
     (\<forall>c u. map_of (users s) c = Some u \<longrightarrow> c \<in> set (sockets s) \<and> (c, room u) \<in> set (adapter s))"

definition undelivered :: "state \<Rightarrow> bool" where
  "undelivered s = list_all (\<lambda>m. deliveredTo m = []) (messages s)"

text \<open>Every session's room is in the room directory.\<close>

definition rooms_registered :: "state \<Rightarrow> bool" where
  "rooms_registered s = list_all (\<lambda>(c, u). room u \<in> set (rooms s)) (users s)"

text \<open>The fields of a message that no handler writes after the message is stored.\<close>

definition fixed_part ::
  "message \<Rightarrow> string \<times> string \<times> string option \<times> string \<times> nat \<times> string \<times> bool \<times> string option" where
  "fixed_part m = (mid m, mtext m, mfile m, sender m, timestamp m, mroom m, isPrivate m, mto m)"

text \<open>
  The room named by the id of a connected socket holds that socket and no other.
  socket.io sets this up on connection; it stays so as long as no client asks to
  join or leave a room whose name is a socket id.
\<close>

definition own_rooms :: "state \<Rightarrow> bool" where
  "own_rooms s = list_all (\<lambda>c. receivers s (To c) = [c]) (sockets s)"

subsection \<open>A sample run\<close>

text \<open>
  Alice connects from two devices (\<open>c1\<close>, \<open>c3\<close>) and bob from one (\<open>c2\<close>), all in
  the room global; \<open>c4\<close> is connected and has not joined; alice and bob have each sent
  one public message.
\<close>

definition plain :: "string \<Rightarrow> send_data" where
  "plain t = \<lparr>d_text = Some t, d_file = None, d_isPrivate = False, d_to = None\<rparr>"

definition whisper :: "string \<Rightarrow> string option \<Rightarrow> send_data" where
  "whisper t b = \<lparr>d_text = Some t, d_file = None, d_isPrivate = True, d_to = b\<rparr>"

definition room_query :: "int \<Rightarrow> int \<Rightarrow> query" where
  "room_query page limit =
     \<lparr>q_room = None, q_page = Some page, q_limit = Some limit, q_private = ''false'',
      q_peer = None, q_requester = None\<rparr>"

definition demo_events :: "event list" where
  "demo_events =
     [Connection ''c1'', Join ''c1'' (Some ''alice'') None 1 True,
      Connection ''c2'', Join ''c2'' (Some ''bob'') (Some ''global'') 2 True,
      Connection ''c3'', Join ''c3'' (Some ''alice'') None 3 True,
      Connection ''c4'',
      SendMessage ''c1'' (plain ''hi'') ''m1'' 4 True,
      SendMessage ''c2'' (plain ''hello'') ''m2'' 5 True]"

definition demo :: state where
  "demo =
     \<lparr>users = [(''c1'', \<lparr>username = ''alice'', room = ''global'', lastSeen = 1\<rparr>),
               (''c2'', \<lparr>username = ''bob'', room = ''global'', lastSeen = 2\<rparr>),
               (''c3'', \<lparr>username = ''alice'', room = ''global'', lastSeen = 3\<rparr>)],
      messages = [\<lparr>mid = ''m1'', mtext = ''hi'', mfile = None, sender = ''alice'', timestamp = 4,
                    mroom = ''global'', isPrivate = False, mto = None, reactions = [],
                    readBy = [], deliveredTo = []\<rparr>,
                  \<lparr>mid = ''m2'', mtext = ''hello'', mfile = None, sender = ''bob'', timestamp = 5,
                    mroom = ''global'', isPrivate = False, mto = None, reactions = [],
                    readBy = [], deliveredTo = []\<rparr>],
      rooms = [''global''],
      sockets = [''c1'', ''c2'', ''c3'', ''c4''],
      adapter = [(''c1'', ''c1''), (''c1'', ''global''), (''c2'', ''c2''), (''c2'', ''global''),
                 (''c3'', ''c3''), (''c3'', ''global''), (''c4'', ''c4'')]\<rparr>"

text \<open>
  A run of presence events only: bob joins the room dev directly, \<open>c3\<close> joins global
  and then moves to dev, and \<open>c4\<close> joins the room lobby and leaves.
\<close>

definition roster_events :: "event list" where
  "roster_events =
     [Connection ''c1'', Join ''c1'' (Some ''alice'') None 1 True,
      Connection ''c2'', Join ''c2'' (Some ''bob'') (Some ''dev'') 2 True,
      Connection ''c3'', Join ''c3'' (Some ''alice'') None 3 True,
      JoinRoom ''c3'' ''dev'' True,
      Connection ''c4'', Join ''c4'' (Some ''carol'') (Some ''lobby'') 4 True,
      Disconnect ''c4'']"

definition roster :: state where
  "roster =
     \<lparr>users = [(''c1'', \<lparr>username = ''alice'', room = ''global'', lastSeen = 1\<rparr>),
               (''c2'', \<lparr>username = ''bob'', room = ''dev'', lastSeen = 2\<rparr>),
               (''c3'', \<lparr>username = ''alice'', room = ''dev'', lastSeen = 3\<rparr>)],
      messages = [],
      rooms = [''global'', ''dev'', ''lobby''],
      sockets = [''c1'', ''c2'', ''c3''],
      adapter = [(''c1'', ''c1''), (''c1'', ''global''), (''c2'', ''c2''), (''c2'', ''dev''),
                 (''c3'', ''c3''), (''c3'', ''dev'')]\<rparr>"

text \<open>The sample run after bob has reacted to the first message and alice has read the second.\<close>

definition demo_marked :: state where
  "demo_marked =
     demo\<lparr>messages :=
            [\<lparr>mid = ''m1'', mtext = ''hi'', mfile = None, sender = ''alice'', timestamp = 4,
               mroom = ''global'', isPrivate = False, mto = None,
               reactions = [\<lparr>user = ''bob'', reaction = ''like''\<rparr>],
               readBy = [], deliveredTo = []\<rparr>,
             \<lparr>mid = ''m2'', mtext = ''hello'', mfile = None, sender = ''bob'', timestamp = 5,
               mroom = ''global'', isPrivate = False, mto = None, reactions = [],
               readBy = [''alice''], deliveredTo = []\<rparr>]\<rparr>"

section \<open>Properties\<close>

subsection \<open>Running the model\<close>

lemma demo_reachable: "run init demo_events = Inr demo"
  by code_simp

lemma run_snoc:
  "run s (evs @ [e]) =
     (case run s evs of Inl x \<Rightarrow> Inl x
      | Inr s' \<Rightarrow> (case step s' e of Inl x \<Rightarrow> Inl x | Inr (s'', out) \<Rightarrow> Inr s''))"
  by (induction evs arbitrary: s) (auto split: sum.splits)

text \<open>Only \<open>react\<close> can throw, so a run of presence events always ends in a state.\<close>

lemma step_presence_returns:
  assumes "presence_event e"
  shows "\<exists>s' out. step s e = Inr (s', out)"
proof -
  from assms obtain x where "handle s e = Inr x" by (cases e) auto
  then have "step s e = Inr x \<or> step s e = Inr (s, [], None)"
    by (auto simp: step_def split: option.splits)
  then show ?thesis by (cases x) auto
qed

lemma run_presence_total:
  "list_all presence_event evs \<Longrightarrow> \<exists>s'. run s evs = Inr s'"
proof (induction evs arbitrary: s)
  case Nil
  then show ?case by simp
next
  case (Cons e evs)
  then obtain s1 out where "step s e = Inr (s1, out)"
    using step_presence_returns[of e s] by auto
  then show ?case using Cons by simp
qed

lemma react_unjoined_throws:
  "map_of (users demo) ''c4'' = None \<and> react demo ''c4'' ''m1'' ''like'' True = Inl TypeError"
  by (simp add: demo_def react_def)

subsection \<open>Association lists and slices\<close>

lemma delete_absent: "map_of al k = None \<Longrightarrow> AList.delete k al = al"
  by (simp add: map_of_eq_None_iff)

lemma update_set_subset: "set (AList.update k v al) \<subseteq> insert (k, v) (set al)"
  by (induction al) auto

lemma delete_set_subset: "set (AList.delete k al) \<subseteq> set al"
  by (auto simp: AList.delete_eq)

lemma one_entry:
  "distinct (map fst al) \<Longrightarrow> k \<in> fst ` set al \<Longrightarrow> length (filter (\<lambda>p. fst p = k) al) = 1"
proof (induction al)
  case Nil
  then show ?case by simp
next
  case (Cons p al)
  show ?case
  proof (cases "fst p = k")
    case True
    have "fst p \<notin> fst ` set al" using Cons.prems(1) by simp
    then have "\<forall>q\<in>set al. fst q \<noteq> k" using True by blast
    then have "filter (\<lambda>p. fst p = k) al = []" by (simp add: filter_empty_conv)
    then show ?thesis using True by simp
  next
    case False
    then show ?thesis using Cons by auto
  qed
qed

lemma update_first_set:
  "x \<in> set (update_first P f xs) \<Longrightarrow> x \<in> set xs \<or> (\<exists>y\<in>set xs. x = f y)"
  by (induction xs) (auto split: if_splits)

lemma update_first_fixed:
  "(\<And>x. g (f x) = g x) \<Longrightarrow> map g (update_first P f xs) = map g xs"
  by (induction xs) auto

lemma js_slice_subset: "set (js_slice xs a b) \<subseteq> set xs"
proof -
  have "set (take n (drop k xs)) \<subseteq> set xs" for n k
    using set_take_subset[of n "drop k xs"] set_drop_subset[of k xs] by blast
  then show ?thesis by (simp add: js_slice_def Let_def)
qed

lemma js_slice_in_range:
  assumes "0 \<le> a" and "a \<le> b" and "b \<le> int (length xs)"
  shows "js_slice xs a b = drop (nat a) (take (nat b) xs)"
  using assms by (simp add: js_slice_def Let_def drop_take nat_diff_distrib)

subsection \<open>The effect of each event on the tables\<close>

lemma step_Connection:
  "step s (Connection c) = Inr (s', out) \<Longrightarrow>
   s' = (if c \<in> set (sockets s) then s
         else s\<lparr>sockets := sockets s @ [c], adapter := adapter s @ [(c, c)]\<rparr>)"
  by (auto simp: step_def)

lemma step_Join:
  "step s (Join c name r now cb) = Inr (s', out) \<Longrightarrow>
   s' = (if c \<in> set (sockets s) \<and> truthy name
         then s\<lparr>users := AList.update c
                   \<lparr>username = or_empty name, room = default_room r, lastSeen = now\<rparr> (users s),
                 rooms := (if default_room r \<in> set (rooms s) then rooms s
                           else rooms s @ [default_room r]),
                 adapter := socket_join c (default_room r) (adapter s)\<rparr>
         else s)"
  by (auto simp: step_def join_def Let_def split: if_splits)

lemma step_JoinRoom:
  "step s (JoinRoom c r cb) = Inr (s', out) \<Longrightarrow>
   s' = (case map_of (users s) c of
           None \<Rightarrow> s
         | Some u0 \<Rightarrow>
             if c \<in> set (sockets s)
             then s\<lparr>users := AList.update c (u0\<lparr>room := r\<rparr>) (users s),
                     adapter := socket_join c r (socket_leave c (room u0) (adapter s))\<rparr>
             else s)"
  by (auto simp: step_def joinRoom_def Let_def split: if_splits option.splits)

lemma step_Disconnect:
  "step s (Disconnect c) = Inr (s', out) \<Longrightarrow>
   s' = (if c \<in> set (sockets s)
         then s\<lparr>users := AList.delete c (users s),
                 sockets := removeAll c (sockets s),
                 adapter := filter (\<lambda>p. fst p \<noteq> c) (adapter s)\<rparr>
         else s)"
  by (auto simp: step_def disconnect_def Let_def delete_absent split: if_splits option.splits)

lemma step_idle:
  "c \<notin> set (sockets s) \<Longrightarrow> step s (Disconnect c) = Inr (s, [], None)"
  by (simp add: step_def)

lemma step_presence_frame:
  assumes "step s e = Inr (s', out)" and "\<not> presence_event e"
  shows "users s' = users s \<and> sockets s' = sockets s \<and> adapter s' = adapter s"
  using assms
  by (cases e)
     (auto simp: step_def sendMessage_def typing_def react_def readMessage_def
                 getUnreadCounts_def post_rooms_def Let_def
           split: if_splits option.splits)

lemma step_messages_frame:
  assumes "step s e = Inr (s', out)" and "presence_event e"
  shows "messages s' = messages s"
  using assms
  by (cases e)
     (auto simp: step_def join_def joinRoom_def disconnect_def Let_def
           split: if_splits option.splits)

subsection \<open>Invariants of every run\<close>

lemma step_users_distinct:
  assumes "step s e = Inr (s', out)" and "distinct (map fst (users s))"
  shows "distinct (map fst (users s'))"
proof (cases "presence_event e")
  case True
  then show ?thesis using assms
    by (cases e)
       (auto dest!: step_Connection step_Join step_JoinRoom step_Disconnect
             simp: distinct_update distinct_delete split: option.splits)
next
  case False
  then show ?thesis using assms step_presence_frame[of s e s' out] by simp
qed

lemma step_sessions_placed:
  assumes "step s e = Inr (s', out)" and "sessions_placed s"
  shows "sessions_placed s'"
proof (cases "presence_event e")
  case True
  then show ?thesis using assms
    by (cases e)
       (auto dest!: step_Connection step_Join step_JoinRoom step_Disconnect
             simp: sessions_placed_def update_conv' delete_conv' socket_join_def socket_leave_def
             split: option.splits if_splits)
next
  case False
  then show ?thesis using assms step_presence_frame[of s e s' out]
    by (simp add: sessions_placed_def)
qed

lemma step_tracks:
  assumes st: "step s e = Inr (s', out)"
      and conn: "\<And>c. spec_connected h c = (c \<in> set (sockets s))"
      and sess: "\<And>c. spec_session h c = session_of s c"
      and live: "sessions_placed s"
  shows "spec_connected (e # h) x = (x \<in> set (sockets s')) \<and>
         spec_session (e # h) x = session_of s' x"
proof (cases "presence_event e")
  case True
  have gone: "map_of (users s) c = None" if "c \<notin> set (sockets s)" for c
  proof (cases "map_of (users s) c")
    case None
    then show ?thesis .
  next
    case (Some u)
    then show ?thesis using live that by (simp add: sessions_placed_def)
  qed
  show ?thesis
  proof (cases e)
    case (Join c name r now cb)
    then show ?thesis using st
      by (cases name; cases r)
         (auto dest!: step_Join
               simp: conn sess session_of_def update_conv' or_empty_def default_room_def
               split: if_splits)
  qed (use True st in \<open>auto dest!: step_Connection step_JoinRoom step_Disconnect
             simp: conn sess gone session_of_def update_conv' delete_conv'
             split: option.splits if_splits\<close>)
next
  case False
  then have "spec_connected (e # h) x = spec_connected h x"
    and "spec_session (e # h) x = spec_session h x"
    by (cases e; simp)+
  then show ?thesis using False step_presence_frame[OF st]
    by (simp add: conn sess session_of_def)
qed

lemma run_invariants:
  "run init evs = Inr s \<Longrightarrow>
     distinct (map fst (users s)) \<and> sessions_placed s \<and>
     (\<forall>c. spec_connected (rev evs) c = (c \<in> set (sockets s))) \<and>
     (\<forall>c. spec_session (rev evs) c = session_of s c)"
proof (induction evs arbitrary: s rule: rev_induct)
  case Nil
  then show ?case by (auto simp: init_def sessions_placed_def session_of_def)
next
  case (snoc e evs)
  from snoc.prems obtain s0 out where r0: "run init evs = Inr s0" and st: "step s0 e = Inr (s, out)"
    by (auto simp: run_snoc split: sum.splits)
  note ih = snoc.IH[OF r0]
  have d: "distinct (map fst (users s))" using step_users_distinct[OF st] ih by simp
  have p: "sessions_placed s" using step_sessions_placed[OF st] ih by simp
  have t: "spec_connected (e # rev evs) x = (x \<in> set (sockets s)) \<and>
           spec_session (e # rev evs) x = session_of s x" for x
    using step_tracks[OF st, of "rev evs" x] ih by simp
  show ?case using d p t by simp
qed

lemma step_undelivered:
  assumes "step s e = Inr (s', out)" and "undelivered s"
  shows "undelivered s'"
proof (cases "presence_event e")
  case True
  then show ?thesis using assms step_messages_frame[of s e s' out]
    by (simp add: undelivered_def)
next
  case False
  then show ?thesis using assms
    by (cases e)
       (auto simp: step_def undelivered_def list_all_iff sendMessage_def typing_def react_def
                   readMessage_def getUnreadCounts_def post_rooms_def Let_def
             split: if_splits option.splits dest!: update_first_set)
qed

lemma run_undelivered:
  "undelivered s \<Longrightarrow> run s evs = Inr s' \<Longrightarrow> undelivered s'"
proof (induction evs arbitrary: s)
  case Nil
  then show ?case by simp
next
  case (Cons e evs)
  then show ?case
    by (auto split: sum.splits dest: step_undelivered)
qed

text \<open>Stored messages keep their id, text, file, sender, time stamp, room, flag and recipient.\<close>

lemma step_fixed_part:
  assumes "step s e = Inr (s', out)"
  shows "prefix (map fixed_part (messages s)) (map fixed_part (messages s'))"
proof (cases "presence_event e")
  case True
  then show ?thesis using step_messages_frame[OF assms] by simp
next
  case False
  then show ?thesis using assms
    by (cases e)
       (auto simp: step_def sendMessage_def typing_def react_def readMessage_def
                   getUnreadCounts_def post_rooms_def Let_def update_first_fixed fixed_part_def
             split: if_splits option.splits)
qed

lemma run_fixed_part:
  "run s evs = Inr s' \<Longrightarrow> prefix (map fixed_part (messages s)) (map fixed_part (messages s'))"
proof (induction evs arbitrary: s)
  case Nil
  then show ?case by simp
next
  case (Cons e evs)
  then obtain s1 out where st: "step s e = Inr (s1, out)" and r: "run s1 evs = Inr s'"
    by (auto split: sum.splits)
  from step_fixed_part[OF st] Cons.IH[OF r] show ?case by (rule prefix_order.trans)
qed

text \<open>
  \<open>join\<close>, \<open>POST /rooms\<close> and disconnects keep every session's room in the directory;
  only \<open>joinRoom\<close> can put a session into a room the directory does not list.
\<close>

lemma step_rooms_registered:
  assumes "step s e = Inr (s', out)" and "rooms_registered s" and "\<not> is_joinRoom e"
  shows "rooms_registered s'"
proof (cases "presence_event e")
  case True
  then show ?thesis using assms
    by (cases e)
       (auto dest!: step_Connection step_Join step_Disconnect
                    subsetD[OF update_set_subset] subsetD[OF delete_set_subset]
             simp: rooms_registered_def list_all_iff
             split: if_splits)
next
  case False
  have "set (rooms s) \<subseteq> set (rooms s')" using assms(1) False
    by (cases e)
       (auto simp: step_def sendMessage_def typing_def react_def readMessage_def
                   getUnreadCounts_def post_rooms_def Let_def
             split: if_splits option.splits)
  then show ?thesis using False assms step_presence_frame[of s e s' out]
    by (auto simp: rooms_registered_def list_all_iff)
qed

lemma run_rooms_registered:
  "run s evs = Inr s' \<Longrightarrow> rooms_registered s \<Longrightarrow>
   list_all (\<lambda>e. \<not> is_joinRoom e) evs \<Longrightarrow> rooms_registered s'"
proof (induction evs arbitrary: s)
  case Nil
  then show ?case by simp
next
  case (Cons e evs)
  from Cons.prems(1) obtain s1 out where st: "step s e = Inr (s1, out)" and r: "run s1 evs = Inr s'"
    by (auto split: sum.splits)
  have "rooms_registered s1" using step_rooms_registered[OF st] Cons.prems by simp
  then show ?case using Cons.IH[OF r] Cons.prems by simp
qed

subsection \<open>History queries\<close>

lemma get_messages_matches:
  assumes "m \<in> set (fst (get_messages s q))"
  shows "matches q m \<and> m \<in> set (messages s)"
proof -
  let ?filtered = "sort_key timestamp (filter (matches q) (messages s))"
  have "m \<in> set ?filtered"
    using assms
    by (cases "q_page q"; cases "q_limit q")
       (auto simp: get_messages_def Let_def dest!: subsetD[OF js_slice_subset])
  then show ?thesis by simp
qed

lemma unaddressed_never_matches:
  "isPrivate m \<Longrightarrow> mto m = None \<Longrightarrow> \<not> matches q m"
  by (simp add: matches_def to_is_def)

text \<open>
  As long as the pages before \<open>page\<close> do not reach past the oldest message, the answer
  is the slice of the time-ordered matches that ends \<open>(page - 1) * limit\<close> before the
  newest one and holds up to \<open>limit\<close> messages.
\<close>

lemma get_messages_in_range:
  assumes pg: "q_page q = Some page" and lm: "q_limit q = Some limit"
      and p1: "1 \<le> page" and l1: "1 \<le> limit"
      and rng: "(page - 1) * limit \<le> int (length (filter (matches q) (messages s)))"
  shows "get_messages s q =
           (let filtered = sort_key timestamp (filter (matches q) (messages s));
                n = int (length filtered)
            in (drop (nat (n - page * limit)) (take (nat (n - (page - 1) * limit)) filtered),
                length filtered))"
proof -
  let ?filtered = "sort_key timestamp (filter (matches q) (messages s))"
  let ?n = "int (length ?filtered)"
  let ?start = "max 0 (?n - page * limit)"
  let ?end = "?n - (page - 1) * limit"
  have le: "(page - 1) * limit \<le> page * limit" using l1 by (simp add: left_diff_distrib)
  have a: "0 \<le> ?start" by simp
  have b: "?start \<le> ?end" using le rng by simp
  have c: "?end \<le> ?n" using p1 l1 by simp
  have slice: "js_slice ?filtered ?start ?end = drop (nat ?start) (take (nat ?end) ?filtered)"
    using a b c by (rule js_slice_in_range)
  have nstart: "nat ?start = nat (?n - page * limit)" by simp
  have mp: "max 1 page = page" "max 1 limit = limit" using p1 l1 by simp_all
  have gm: "get_messages s q = (js_slice ?filtered ?start ?end, length ?filtered)"
    by (simp add: get_messages_def Let_def pg lm mp)
  show ?thesis by (simp only: gm Let_def slice nstart)
qed

lemma own_room_receivers:
  "own_rooms s \<Longrightarrow> c \<in> set (sockets s) \<Longrightarrow> receivers s (To c) = [c]"
  by (simp add: own_rooms_def list_all_iff)

text \<open>Whatever the old room was, \<open>joinRoom\<close> addresses all three of its emits to the new room.\<close>

lemma joinRoom_targets:
  assumes "map_of (users s) c = Some u"
  shows "map (\<lambda>e. case e of Emit t ev p \<Rightarrow> (t, ev)) (fst (snd (joinRoom s c r cb))) =
           [(To r, ''onlineUsers''), (To r, ''onlineUsers''), (To r, ''notification'')]"
  using assms by (simp add: joinRoom_def Let_def)

section \<open>The claims\<close>

subsection \<open>Private messages\<close>

text \<open>
  C1, as amended. A private message (\<open>isPrivate\<close> set, non-empty recipient \<open>b\<close>) sent from a
  joined connection \<open>c\<close> is stored and emitted as \<open>privateMessage\<close> to the room named by
  the id of every connection whose session has the user name \<open>b\<close>, and once more to \<open>c\<close>
  itself through \<open>socket.emit\<close>; nothing else is emitted. When every connection's own
  room holds that connection alone, the connections that receive the message are
  exactly the connections of \<open>b\<close> and \<open>c\<close>: the sender's other connections are not among
  them unless the sender is \<open>b\<close>.
\<close>

theorem private_message_fanout:
  assumes reach: "run init evs = Inr s"
      and joined: "map_of (users s) c = Some u"
      and priv: "d_isPrivate data"
      and rcpt: "d_to data = Some b" "b \<noteq> []"
  shows "let msg = \<lparr>mid = uuid, mtext = or_empty (d_text data), mfile = or_null (d_file data),
                    sender = username u, timestamp = now, mroom = room u, isPrivate = True,
                    mto = Some b, reactions = [], readBy = [], deliveredTo = []\<rparr>;
             s1 = s\<lparr>messages := messages s @ [msg]\<rparr>;
             out = map (\<lambda>c'. Emit (To c') ''privateMessage'' (Msg msg)) (sockets_of s b)
                   @ [Emit (Self c) ''privateMessage'' (Msg msg)]
         in sendMessage s c data uuid now cb = (s1, out, callback cb (AckDelivered uuid))
          \<and> set (sockets_of s b) = {c'. \<exists>u'. map_of (users s) c' = Some u' \<and> username u' = b}
          \<and> (own_rooms s \<longrightarrow>
                delivered s1 out =
                  map (\<lambda>c'. (c', ''privateMessage'', Msg msg)) (sockets_of s b @ [c]))"
proof -
  define msg where "msg = \<lparr>mid = uuid, mtext = or_empty (d_text data), mfile = or_null (d_file data),
                    sender = username u, timestamp = now, mroom = room u, isPrivate = True,
                    mto = Some b, reactions = [], readBy = [], deliveredTo = []\<rparr>"
  define s1 where "s1 = s\<lparr>messages := messages s @ [msg]\<rparr>"
  define out where "out = map (\<lambda>c'. Emit (To c') ''privateMessage'' (Msg msg)) (sockets_of s b)
                   @ [Emit (Self c) ''privateMessage'' (Msg msg)]"
  note inv = run_invariants[OF reach]
  have d: "distinct (map fst (users s))" and placed: "sessions_placed s" using inv by simp_all
  have a: "sendMessage s c data uuid now cb = (s1, out, callback cb (AckDelivered uuid))"
    using joined priv rcpt
    by (simp add: sendMessage_def Let_def or_null_def or_empty_def msg_def s1_def out_def
                  sockets_of_def)
  have keys: "set (sockets_of s b) = {c'. \<exists>u'. map_of (users s) c' = Some u' \<and> username u' = b}"
    using d by (auto simp: sockets_of_def image_iff)
  have b: "delivered s1 out = map (\<lambda>c'. (c', ''privateMessage'', Msg msg)) (sockets_of s b @ [c])"
    if own: "own_rooms s"
  proof -
    have own1: "own_rooms s1" using own by (simp add: own_rooms_def s1_def)
    have one: "filter (\<lambda>x. (x, c') \<in> set (adapter s1)) (sockets s1) = [c']"
      if "c' \<in> set (sockets_of s b)" for c'
    proof -
      from that keys obtain u' where "map_of (users s) c' = Some u'" by auto
      then have "c' \<in> set (sockets s1)" using placed by (simp add: sessions_placed_def s1_def)
      then show ?thesis using own_room_receivers[OF own1, of c'] by simp
    qed
    have "concat (map (deliveries s1) (map (\<lambda>c'. Emit (To c') ''privateMessage'' (Msg msg)) cs)) =
          map (\<lambda>c'. (c', ''privateMessage'', Msg msg)) cs" if "set cs \<subseteq> set (sockets_of s b)" for cs
      using that by (induction cs) (simp_all add: one)
    then show ?thesis by (simp add: delivered_def out_def)
  qed
  show ?thesis
    unfolding Let_def msg_def[symmetric] s1_def[symmetric] out_def[symmetric]
    using a b keys by simp
qed

theorem private_message_fanout_witness:
  "run init demo_events = Inr demo
   \<and> map_of (users demo) ''c1'' = Some \<lparr>username = ''alice'', room = ''global'', lastSeen = 1\<rparr>
   \<and> d_isPrivate (whisper ''psst'' (Some ''bob'')) \<and> d_to (whisper ''psst'' (Some ''bob'')) = Some ''bob''
   \<and> ''bob'' \<noteq> [] \<and> own_rooms demo
   \<and> map fst (delivered (fst (sendMessage demo ''c1'' (whisper ''psst'' (Some ''bob'')) ''m3'' 6 True))
                (fst (snd (sendMessage demo ''c1'' (whisper ''psst'' (Some ''bob'')) ''m3'' 6 True))))
     = [''c2'', ''c1'']"
proof -
  have h1: "run init demo_events = Inr demo" by code_simp
  have h2: "map_of (users demo) ''c1'' = Some \<lparr>username = ''alice'', room = ''global'', lastSeen = 1\<rparr>"
    by (simp add: demo_def)
  have h3: "d_isPrivate (whisper ''psst'' (Some ''bob''))" by (simp add: whisper_def)
  have h4: "d_to (whisper ''psst'' (Some ''bob'')) = Some ''bob''" by (simp add: whisper_def)
  have h5: "''bob'' \<noteq> []" by simp
  have h6: "own_rooms demo" by (simp add: own_rooms_def demo_def)
  note inst = private_message_fanout[OF h1 h2 h3 h4 h5, of "''m3''" 6 True, unfolded Let_def]
  have "sockets_of demo ''bob'' = [''c2'']" by (simp add: sockets_of_def demo_def)
  then show ?thesis using h1 h2 h3 h4 h6 inst by (simp add: comp_def)
qed

text \<open>
  C1 as stated fails: alice is joined on \<open>c1\<close> and on \<open>c3\<close>; when she sends a private
  message to bob from \<open>c1\<close>, her connection \<open>c3\<close> receives nothing.
\<close>

theorem private_message_skips_other_devices:
  "map_of (users demo) ''c3'' = Some \<lparr>username = ''alice'', room = ''global'', lastSeen = 3\<rparr>
   \<and> map_of (users demo) ''c1'' = Some \<lparr>username = ''alice'', room = ''global'', lastSeen = 1\<rparr>
   \<and> ''c3'' \<notin> fst ` set (delivered
        (fst (sendMessage demo ''c1'' (whisper ''psst'' (Some ''bob'')) ''m3'' 6 True))
        (fst (snd (sendMessage demo ''c1'' (whisper ''psst'' (Some ''bob'')) ''m3'' 6 True))))"
  by (simp add: demo_def whisper_def sendMessage_def Let_def or_null_def or_empty_def
                sockets_of_def delivered_def)

subsection \<open>Operations before joining\<close>

text \<open>
  C2, as amended. On a connection without a session: \<open>sendMessage\<close> and \<open>joinRoom\<close>
  answer \<open>{error: "Not joined"}\<close>, emit nothing and change nothing; \<open>typing\<close> returns
  without an answer, emits nothing and changes nothing; \<open>readMessage\<close> changes nothing
  either, but it does not report the missing session: it answers
  \<open>{error: "Message not found"}\<close> for an unknown id, and otherwise emits \<open>readUpdate\<close>
  for the message and answers \<open>{status: "ok"}\<close>.
\<close>

theorem unjoined_operations:
  assumes "map_of (users s) c = None"
  shows "sendMessage s c data uuid now cb = (s, [], callback cb (AckError ''Not joined''))
       \<and> joinRoom s c r cb = (s, [], callback cb (AckError ''Not joined''))
       \<and> typing s c td = (s, [], None)
       \<and> fst (readMessage s c messageId cb) = s
       \<and> fst (snd (readMessage s c messageId cb)) =
           (case find (\<lambda>m. mid m = messageId) (messages s) of
              None \<Rightarrow> [] | Some m \<Rightarrow> update_emits s ''readUpdate'' m)
       \<and> snd (snd (readMessage s c messageId cb)) =
           callback cb (if messageId \<in> mid ` set (messages s) then AckStatus ''ok''
                        else AckError ''Message not found'')"
proof -
  have rd: "fst (readMessage s c messageId cb) = s
       \<and> fst (snd (readMessage s c messageId cb)) =
           (case find (\<lambda>m. mid m = messageId) (messages s) of
              None \<Rightarrow> [] | Some m \<Rightarrow> update_emits s ''readUpdate'' m)
       \<and> snd (snd (readMessage s c messageId cb)) =
           callback cb (if messageId \<in> mid ` set (messages s) then AckStatus ''ok''
                        else AckError ''Message not found'')"
  proof (cases "find (\<lambda>m. mid m = messageId) (messages s)")
    case None
    then have "messageId \<notin> mid ` set (messages s)" by (auto simp: find_None_iff)
    then show ?thesis using None by (simp add: readMessage_def)
  next
    case (Some m)
    then have "messageId \<in> mid ` set (messages s)" by (auto simp: find_Some_iff image_iff)
    then show ?thesis using Some assms by (simp add: readMessage_def Let_def)
  qed
  show ?thesis using assms rd by (simp add: sendMessage_def joinRoom_def typing_def)
qed

theorem unjoined_operations_witness:
  "map_of (users demo) ''c4'' = None
   \<and> sendMessage demo ''c4'' (plain ''hi'') ''m3'' 6 True = (demo, [], Some (AckError ''Not joined''))
   \<and> joinRoom demo ''c4'' ''dev'' True = (demo, [], Some (AckError ''Not joined''))"
proof -
  have h: "map_of (users demo) ''c4'' = None" by (simp add: demo_def)
  from unjoined_operations[OF h, of "plain ''hi''" "''m3''" 6 True "''dev''"]
  show ?thesis using h by (simp add: callback_def)
qed

text \<open>
  C2 as stated fails: \<open>c4\<close> is connected and has no session, yet its \<open>readMessage\<close> for
  the stored message \<open>m1\<close> is answered \<open>{status: "ok"}\<close>, not with an error, and a
  \<open>readUpdate\<close> goes out to the room.
\<close>

theorem readMessage_unjoined_is_acknowledged:
  "map_of (users demo) ''c4'' = None
   \<and> readMessage demo ''c4'' ''m1'' True =
       (demo,
        [Emit (To ''global'') ''readUpdate''
           (Msg \<lparr>mid = ''m1'', mtext = ''hi'', mfile = None, sender = ''alice'', timestamp = 4,
                  mroom = ''global'', isPrivate = False, mto = None, reactions = [],
                  readBy = [], deliveredTo = []\<rparr>)],
        Some (AckStatus ''ok''))"
  by (simp add: demo_def readMessage_def update_emits_def callback_def Let_def)

subsection \<open>Changing rooms\<close>

text \<open>
  C3 at a failing input. Alice (\<open>c1\<close>, \<open>c3\<close>) and bob (\<open>c2\<close>) are in the room global and
  \<open>c1\<close> calls \<open>joinRoom("dev")\<close>. All three emits go to the room dev, the list of online
  users twice; only \<open>c1\<close> receives anything, and the two sessions that stay in the room
  global are sent no updated list.
\<close>

theorem joinRoom_skips_old_room:
  "run init demo_events = Inr demo
   \<and> snd (joinRoom demo ''c1'' ''dev'' True) =
       ([Emit (To ''dev'') ''onlineUsers''
           (OnlineUsers [\<lparr>username = ''alice'', room = ''dev'', lastSeen = 1\<rparr>]),
         Emit (To ''dev'') ''onlineUsers''
           (OnlineUsers [\<lparr>username = ''alice'', room = ''dev'', lastSeen = 1\<rparr>]),
         Emit (To ''dev'') ''notification'' (Notification ''alice joined dev'')],
        Some (AckStatus ''ok''))
   \<and> map fst (delivered (fst (joinRoom demo ''c1'' ''dev'' True))
                          (fst (snd (joinRoom demo ''c1'' ''dev'' True)))) = [''c1'', ''c1'', ''c1'']
   \<and> onlineUsersInRoom (fst (joinRoom demo ''c1'' ''dev'' True)) ''global'' =
       [\<lparr>username = ''bob'', room = ''global'', lastSeen = 2\<rparr>,
        \<lparr>username = ''alice'', room = ''global'', lastSeen = 3\<rparr>]"
  by code_simp

text \<open>
  C4 at a failing input. After a connection has joined the room global and then called
  \<open>joinRoom("dev")\<close>, its session is in the room dev and the room directory still holds
  global alone.
\<close>

theorem joinRoom_leaves_room_unregistered:
  "run init [Connection ''c1'', Join ''c1'' (Some ''alice'') None 1 True, JoinRoom ''c1'' ''dev'' True] =
     Inr \<lparr>users = [(''c1'', \<lparr>username = ''alice'', room = ''dev'', lastSeen = 1\<rparr>)],
          messages = [], rooms = [''global''], sockets = [''c1''],
          adapter = [(''c1'', ''c1''), (''c1'', ''dev'')]\<rparr>
   \<and> ''dev'' \<notin> set [''global'']"
  by code_simp

subsection \<open>History pages\<close>

text \<open>
  C5 at a failing input. The room global holds two messages. With three messages to a
  page, page 1 returns both; page 2, which has nothing left to return, returns the
  older message again, because the negative end index counts from the end of the list.
\<close>

theorem get_messages_past_the_end:
  "run init demo_events = Inr demo
   \<and> get_messages demo (room_query 1 3) = (messages demo, 2)
   \<and> get_messages demo (room_query 2 3) = ([hd (messages demo)], 2)"
  by code_simp

subsection \<open>Joining\<close>

text \<open>
  C6, as amended. In every state a run can reach, \<open>join\<close> with an absent or empty
  user name answers \<open>{error: "Username required"}\<close> and changes nothing; with any
  other user name, one of blanks included, it answers \<open>{status: "ok"}\<close> and sets the
  session of the connection, every other session staying as it was and the connection
  having exactly one entry.
\<close>

theorem join_validates_username:
  assumes "run init evs = Inr s"
  shows "if truthy name
         then (\<exists>s' out. join s c name r now cb = (s', out, callback cb (AckStatus ''ok''))
                \<and> map_of (users s') =
                    (map_of (users s))(c \<mapsto> \<lparr>username = or_empty name, room = default_room r,
                                               lastSeen = now\<rparr>)
                \<and> distinct (map fst (users s'))
                \<and> length (filter (\<lambda>p. fst p = c) (users s')) = 1)
         else join s c name r now cb = (s, [], callback cb (AckError ''Username required''))"
proof (cases "truthy name")
  case False
  then show ?thesis by (simp add: join_def)
next
  case True
  let ?u = "\<lparr>username = or_empty name, room = default_room r, lastSeen = now\<rparr>"
  let ?al = "AList.update c ?u (users s)"
  have "distinct (map fst (users s))" using run_invariants[OF assms] by simp
  then have d: "distinct (map fst ?al)" by (rule distinct_update)
  have "c \<in> fst ` set ?al" by (simp add: dom_update)
  then have one: "length (filter (\<lambda>p. fst p = c) ?al) = 1" using d by (rule one_entry[rotated])
  show ?thesis using True d one
    by (simp add: join_def Let_def update_conv')
qed

theorem join_validates_username_witness:
  "run init demo_events = Inr demo
   \<and> join demo ''c4'' (Some []) None 7 True = (demo, [], Some (AckError ''Username required''))
   \<and> snd (snd (join demo ''c1'' (Some ''alice'') (Some ''dev'') 7 True)) = Some (AckStatus ''ok'')"
proof -
  have h: "run init demo_events = Inr demo" by code_simp
  from join_validates_username[OF h, of "Some []" "''c4''" None 7 True]
  have a: "join demo ''c4'' (Some []) None 7 True = (demo, [], Some (AckError ''Username required''))"
    by (simp add: callback_def)
  from join_validates_username[OF h, of "Some ''alice''" "''c1''" "Some ''dev''" 7 True]
  have b: "snd (snd (join demo ''c1'' (Some ''alice'') (Some ''dev'') 7 True)) = Some (AckStatus ''ok'')"
    by (auto simp: callback_def)
  show ?thesis using h a b by simp
qed

text \<open>
  C6 as stated fails: a user name of two blanks is accepted; the connection gets a
  session under that name and the answer is \<open>{status: "ok"}\<close>.
\<close>

theorem join_accepts_blank_username:
  "map_of (users (fst (join demo ''c4'' (Some ''  '') None 7 True))) ''c4'' =
     Some \<lparr>username = ''  '', room = ''global'', lastSeen = 7\<rparr>
   \<and> snd (snd (join demo ''c4'' (Some ''  '') None 7 True)) = Some (AckStatus ''ok'')"
  by (simp add: demo_def join_def Let_def or_empty_def default_room_def callback_def)

subsection \<open>Presence\<close>

text \<open>
  C7. A run of \<open>join\<close>, \<open>joinRoom\<close>, disconnect and connection events always ends in a
  state. In the state after any run, \<open>onlineUsersInRoom r\<close> lists exactly the sessions of
  the connections whose most recent successful \<open>join\<close> or \<open>joinRoom\<close> targeted \<open>r\<close> and
  which have not disconnected since: the listed records are those of the connections
  that the history places in \<open>r\<close>, each connection has one record, and the record
  carries the user name and room the history gives. A second disconnect of a
  connection changes nothing and emits nothing.
\<close>

theorem listInRoom_reflects_sessions:
  "(list_all presence_event evs \<longrightarrow> (\<exists>s. run init evs = Inr s))
   \<and> (\<forall>s. run init evs = Inr s \<longrightarrow>
          (\<forall>r. onlineUsersInRoom s r =
                 map snd (filter (\<lambda>(c, u). spec_in_room (rev evs) r c) (users s)))
        \<and> (\<forall>c. map_option (\<lambda>u. (username u, room u)) (map_of (users s) c) =
                 spec_session (rev evs) c)
        \<and> distinct (map fst (users s))
        \<and> (\<forall>c. disconnect (fst (disconnect s c)) c = (fst (disconnect s c), [], None))
        \<and> (\<forall>c s1 out. step s (Disconnect c) = Inr (s1, out) \<longrightarrow>
                         step s1 (Disconnect c) = Inr (s1, [], None)))"
proof -
  have tot: "list_all presence_event evs \<longrightarrow> (\<exists>s. run init evs = Inr s)"
    using run_presence_total by blast
  have main:
    "(\<forall>r. onlineUsersInRoom s r =
            map snd (filter (\<lambda>(c, u). spec_in_room (rev evs) r c) (users s)))
     \<and> (\<forall>c. map_option (\<lambda>u. (username u, room u)) (map_of (users s) c) =
              spec_session (rev evs) c)
     \<and> distinct (map fst (users s))
     \<and> (\<forall>c. disconnect (fst (disconnect s c)) c = (fst (disconnect s c), [], None))
     \<and> (\<forall>c s1 out. step s (Disconnect c) = Inr (s1, out) \<longrightarrow>
                      step s1 (Disconnect c) = Inr (s1, [], None))"
    if reach: "run init evs = Inr s" for s
  proof -
    note inv = run_invariants[OF reach]
    have d: "distinct (map fst (users s))" using inv by simp
    have sess: "spec_session (rev evs) c = session_of s c" for c using inv by simp
    have a: "onlineUsersInRoom s r =
             map snd (filter (\<lambda>(c, u). spec_in_room (rev evs) r c) (users s))" for r
    proof -
      have "filter (\<lambda>(c, u). spec_in_room (rev evs) r c) (users s) =
            filter (\<lambda>(c, u). room u = r) (users s)"
      proof (rule filter_cong[OF refl])
        fix p assume mem: "p \<in> set (users s)"
        obtain c u where p: "p = (c, u)" by (cases p)
        have "map_of (users s) c = Some u" using d mem by (simp add: p)
        then show "(case p of (c, u) \<Rightarrow> spec_in_room (rev evs) r c) =
                   (case p of (c, u) \<Rightarrow> room u = r)"
          by (simp add: p spec_in_room_def sess session_of_def)
      qed
      then show ?thesis
        by (simp add: onlineUsersInRoom_def filter_map comp_def case_prod_unfold)
    qed
    have b: "disconnect (fst (disconnect s c)) c = (fst (disconnect s c), [], None)" for c
      by (simp add: disconnect_def Let_def delete_conv' split: option.splits)
    have c: "step s1 (Disconnect c) = Inr (s1, [], None)"
      if "step s (Disconnect c) = Inr (s1, out)" for c s1 out
    proof -
      have "c \<notin> set (sockets s1)" using step_Disconnect[OF that] by (simp split: if_splits)
      then show ?thesis by (rule step_idle)
    qed
    show ?thesis using a b c d sess by (simp add: session_of_def)
  qed
  show ?thesis by (intro conjI allI impI tot[rule_format] main[THEN conjunct1, rule_format]
      main[THEN conjunct2, THEN conjunct1, rule_format]
      main[THEN conjunct2, THEN conjunct2, THEN conjunct1]
      main[THEN conjunct2, THEN conjunct2, THEN conjunct2, THEN conjunct1, rule_format]
      main[THEN conjunct2, THEN conjunct2, THEN conjunct2, THEN conjunct2, rule_format])
qed

theorem listInRoom_reflects_sessions_witness:
  "list_all presence_event roster_events
   \<and> run init roster_events = Inr roster
   \<and> onlineUsersInRoom roster ''dev'' =
       [\<lparr>username = ''bob'', room = ''dev'', lastSeen = 2\<rparr>,
        \<lparr>username = ''alice'', room = ''dev'', lastSeen = 3\<rparr>]
   \<and> onlineUsersInRoom roster ''global'' = [\<lparr>username = ''alice'', room = ''global'', lastSeen = 1\<rparr>]
   \<and> onlineUsersInRoom roster ''lobby'' = []
   \<and> spec_session (rev roster_events) ''c1'' = Some (''alice'', ''global'')
   \<and> spec_session (rev roster_events) ''c2'' = Some (''bob'', ''dev'')
   \<and> spec_session (rev roster_events) ''c3'' = Some (''alice'', ''dev'')
   \<and> spec_session (rev roster_events) ''c4'' = None"
proof -
  have p: "list_all presence_event roster_events" by (simp add: roster_events_def)
  note inst = listInRoom_reflects_sessions[of roster_events]
  from inst p obtain s where "run init roster_events = Inr s" by blast
  moreover have "run init roster_events = Inr roster" by code_simp
  ultimately have h: "run init roster_events = Inr roster" by simp
  note at = inst[THEN conjunct2, rule_format, OF h]
  have sess: "spec_session (rev roster_events) c =
        map_option (\<lambda>u. (username u, room u)) (map_of (users roster) c)" for c
    using at by metis
  have c1: "spec_session (rev roster_events) ''c1'' = Some (''alice'', ''global'')"
    by (simp add: sess roster_def)
  have c2: "spec_session (rev roster_events) ''c2'' = Some (''bob'', ''dev'')"
    by (simp add: sess roster_def)
  have c3: "spec_session (rev roster_events) ''c3'' = Some (''alice'', ''dev'')"
    by (simp add: sess roster_def)
  have c4: "spec_session (rev roster_events) ''c4'' = None"
    by (simp add: sess roster_def)
  have dev: "onlineUsersInRoom roster ''dev'' =
        map snd (filter (\<lambda>(c, u). spec_in_room (rev roster_events) ''dev'' c) (users roster))"
    and glob: "onlineUsersInRoom roster ''global'' =
        map snd (filter (\<lambda>(c, u). spec_in_room (rev roster_events) ''global'' c) (users roster))"
    and lob: "onlineUsersInRoom roster ''lobby'' =
        map snd (filter (\<lambda>(c, u). spec_in_room (rev roster_events) ''lobby'' c) (users roster))"
    using at by blast+
  have "onlineUsersInRoom roster ''dev'' =
       [\<lparr>username = ''bob'', room = ''dev'', lastSeen = 2\<rparr>,
        \<lparr>username = ''alice'', room = ''dev'', lastSeen = 3\<rparr>]"
    and "onlineUsersInRoom roster ''global'' = [\<lparr>username = ''alice'', room = ''global'', lastSeen = 1\<rparr>]"
    and "onlineUsersInRoom roster ''lobby'' = []"
    unfolding dev glob lob by (simp_all add: spec_in_room_def c1 c2 c3 roster_def)
  then show ?thesis using p h c1 c2 c3 c4 by simp
qed

subsection \<open>The message store\<close>

text \<open>
  C8. When no stored message has the id \<open>messageId\<close>, \<open>react\<close> and \<open>readMessage\<close> both
  answer \<open>{error: "Message not found"}\<close>, emit nothing and leave every table, the
  message store included, as it was.
\<close>

theorem react_readMessage_not_found:
  assumes "messageId \<notin> mid ` set (messages s)"
  shows "react s c messageId r cb = Inr (s, [], callback cb (AckError ''Message not found''))
       \<and> readMessage s c messageId cb = (s, [], callback cb (AckError ''Message not found''))"
proof -
  have "find (\<lambda>m. mid m = messageId) (messages s) = None"
    using assms by (auto simp: find_None_iff)
  then show ?thesis by (simp add: react_def readMessage_def)
qed

theorem react_readMessage_not_found_witness:
  "''m9'' \<notin> mid ` set (messages demo)
   \<and> react demo ''c1'' ''m9'' ''like'' True = Inr (demo, [], Some (AckError ''Message not found''))
   \<and> readMessage demo ''c1'' ''m9'' True = (demo, [], Some (AckError ''Message not found''))"
proof -
  have h: "''m9'' \<notin> mid ` set (messages demo)" by (simp add: demo_def)
  from react_readMessage_not_found[OF h, of "''c1''" "''like''" True]
  show ?thesis using h by (simp add: callback_def)
qed

text \<open>
  C9. A message is stored with an empty \<open>deliveredTo\<close> and no handler writes the field:
  after any run of events every stored message has an empty \<open>deliveredTo\<close>.
\<close>

theorem deliveredTo_never_recorded:
  assumes "run init evs = Inr s"
  shows "\<forall>m\<in>set (messages s). deliveredTo m = []"
proof -
  have "undelivered init" by (simp add: undelivered_def init_def)
  then have "undelivered s" using assms by (rule run_undelivered)
  then show ?thesis by (simp add: undelivered_def list_all_iff)
qed

theorem deliveredTo_never_recorded_witness:
  "run init (demo_events @ [React ''c2'' ''m1'' ''like'' True, ReadMessage ''c3'' ''m2'' True]) =
     Inr demo_marked
   \<and> map deliveredTo (messages demo_marked) = [[], []]"
proof -
  have h: "run init (demo_events @ [React ''c2'' ''m1'' ''like'' True, ReadMessage ''c3'' ''m2'' True])
           = Inr demo_marked"
    by code_simp
  have "map deliveredTo (messages demo_marked) = map (\<lambda>m. []) (messages demo_marked)"
    using deliveredTo_never_recorded[OF h] by (intro map_cong refl) blast
  then show ?thesis using h by (simp add: demo_marked_def)
qed

text \<open>
  C10. When a joined connection sends a message with \<open>isPrivate\<close> set and no recipient,
  the message is stored with \<open>isPrivate\<close> true and \<open>to\<close> null, and the only emit is a
  \<open>receiveMessage\<close> to the sender's room, which reaches every connection that has a
  session in that room. The message matches no history query, neither by room nor by
  a pair of participants; it stays in the store with the same id, flag and recipient
  through every later run, and no page of any later query contains a private message
  without recipient.
\<close>

theorem private_without_recipient:
  assumes reach: "run init evs = Inr s"
      and joined: "map_of (users s) c = Some u"
      and priv: "d_isPrivate data"
      and noto: "d_to data = None"
  shows "let msg = \<lparr>mid = uuid, mtext = or_empty (d_text data), mfile = or_null (d_file data),
                    sender = username u, timestamp = now, mroom = room u, isPrivate = True,
                    mto = None, reactions = [], readBy = [], deliveredTo = []\<rparr>;
             s1 = s\<lparr>messages := messages s @ [msg]\<rparr>;
             out = [Emit (To (room u)) ''receiveMessage'' (Msg msg)]
         in sendMessage s c data uuid now cb = (s1, out, callback cb (AckDelivered uuid))
          \<and> delivered s1 out =
              map (\<lambda>c'. (c', ''receiveMessage'', Msg msg))
                  (filter (\<lambda>c'. (c', room u) \<in> set (adapter s)) (sockets s))
          \<and> (\<forall>c' u'. map_of (users s) c' = Some u' \<and> room u' = room u \<longrightarrow>
                 (c', ''receiveMessage'', Msg msg) \<in> set (delivered s1 out))
          \<and> (\<forall>q. \<not> matches q msg)
          \<and> (\<forall>evs' s' q. run s1 evs' = Inr s' \<longrightarrow>
                 length (messages s) < length (messages s')
               \<and> mid (messages s' ! length (messages s)) = uuid
               \<and> isPrivate (messages s' ! length (messages s))
               \<and> mto (messages s' ! length (messages s)) = None
               \<and> (\<forall>m\<in>set (fst (get_messages s' q)). \<not> (isPrivate m \<and> mto m = None)))"
proof -
  define msg where "msg = \<lparr>mid = uuid, mtext = or_empty (d_text data), mfile = or_null (d_file data),
                    sender = username u, timestamp = now, mroom = room u, isPrivate = True,
                    mto = None, reactions = [], readBy = [], deliveredTo = []\<rparr>"
  define s1 where "s1 = s\<lparr>messages := messages s @ [msg]\<rparr>"
  define out where "out = [Emit (To (room u)) ''receiveMessage'' (Msg msg)]"
  have a: "sendMessage s c data uuid now cb = (s1, out, callback cb (AckDelivered uuid))"
    using joined priv noto
    by (simp add: sendMessage_def Let_def or_null_def msg_def s1_def out_def)
  have b: "delivered s1 out =
              map (\<lambda>c'. (c', ''receiveMessage'', Msg msg))
                  (filter (\<lambda>c'. (c', room u) \<in> set (adapter s)) (sockets s))"
    by (simp add: delivered_def out_def s1_def)
  have placed: "sessions_placed s" using run_invariants[OF reach] by simp
  have c: "(c', ''receiveMessage'', Msg msg) \<in> set (delivered s1 out)"
    if "map_of (users s) c' = Some u'" and "room u' = room u" for c' u'
  proof -
    have "c' \<in> set (sockets s) \<and> (c', room u') \<in> set (adapter s)"
      using placed that(1) by (simp add: sessions_placed_def)
    then show ?thesis using that(2) by (simp add: b image_iff)
  qed
  have d: "\<not> matches q msg" for q
    by (rule unaddressed_never_matches) (simp_all add: msg_def)
  have e: "length (messages s) < length (messages s')
           \<and> mid (messages s' ! length (messages s)) = uuid
           \<and> isPrivate (messages s' ! length (messages s))
           \<and> mto (messages s' ! length (messages s)) = None
           \<and> (\<forall>m\<in>set (fst (get_messages s' q)). \<not> (isPrivate m \<and> mto m = None))"
    if r: "run s1 evs' = Inr s'" for evs' s' q
  proof -
    from run_fixed_part[OF r] obtain zs where
      zs: "map fixed_part (messages s') = map fixed_part (messages s1) @ zs"
      by (auto simp: prefix_def)
    let ?n = "length (messages s)"
    have len: "?n < length (messages s')"
      using arg_cong[OF zs, of length] by (simp add: s1_def)
    have "map fixed_part (messages s') ! ?n = fixed_part msg"
      by (simp add: zs s1_def nth_append)
    then have "fixed_part (messages s' ! ?n) = fixed_part msg" using len by simp
    then have "mid (messages s' ! ?n) = uuid \<and> isPrivate (messages s' ! ?n)
               \<and> mto (messages s' ! ?n) = None"
      by (simp add: fixed_part_def msg_def)
    moreover have "\<forall>m\<in>set (fst (get_messages s' q)). \<not> (isPrivate m \<and> mto m = None)"
      using get_messages_matches unaddressed_never_matches by blast
    ultimately show ?thesis using len by simp
  qed
  show ?thesis
    unfolding Let_def msg_def[symmetric] s1_def[symmetric] out_def[symmetric]
    using a b c d e by blast
qed

theorem private_without_recipient_witness:
  "run init demo_events = Inr demo
   \<and> map_of (users demo) ''c1'' = Some \<lparr>username = ''alice'', room = ''global'', lastSeen = 1\<rparr>
   \<and> d_isPrivate (whisper ''psst'' None) \<and> d_to (whisper ''psst'' None) = None
   \<and> sendMessage demo ''c1'' (whisper ''psst'' None) ''m3'' 6 True =
       (demo\<lparr>messages := messages demo @
                [\<lparr>mid = ''m3'', mtext = ''psst'', mfile = None, sender = ''alice'', timestamp = 6,
                   mroom = ''global'', isPrivate = True, mto = None, reactions = [], readBy = [],
                   deliveredTo = []\<rparr>]\<rparr>,
        [Emit (To ''global'') ''receiveMessage''
           (Msg \<lparr>mid = ''m3'', mtext = ''psst'', mfile = None, sender = ''alice'', timestamp = 6,
                  mroom = ''global'', isPrivate = True, mto = None, reactions = [], readBy = [],
                  deliveredTo = []\<rparr>)],
        Some (AckDelivered ''m3''))"
proof -
  have h1: "run init demo_events = Inr demo" by code_simp
  have h2: "map_of (users demo) ''c1'' = Some \<lparr>username = ''alice'', room = ''global'', lastSeen = 1\<rparr>"
    by (simp add: demo_def)
  have h3: "d_isPrivate (whisper ''psst'' None)" by (simp add: whisper_def)
  have h4: "d_to (whisper ''psst'' None) = None" by (simp add: whisper_def)
  note inst = private_without_recipient[OF h1 h2 h3 h4, of "''m3''" 6 True, unfolded Let_def,
                THEN conjunct1]
  show ?thesis using h1 h2 h3 h4 inst
    by (simp add: whisper_def or_empty_def or_null_def callback_def)
qed

end
